theory Spec2Isabelle
  imports Main "HOL-Library.Word"
begin

section \<open>Data model\<close>

text \<open>
  The service of \<^verbatim>\<open>main.js\<close> keeps its state in two places: the Postgres table
  \<^verbatim>\<open>inventory\<close> (with the sequence behind its \<^verbatim>\<open>SERIAL\<close> key) and the directory
  \<^verbatim>\<open>uploads\<close> on disk. A row has the five columns of the \<^verbatim>\<open>CREATE TABLE\<close> statement;
  \<^verbatim>\<open>description\<close> and \<^verbatim>\<open>photo\<close> are nullable. The table is the list of its rows, the
  directory a map from file names to contents.

  Modelling boundary: both stores are reachable (no connection or I/O failure), route
  parameters are integers, body fields are strings or missing, and time stamps are read
  from the environment and handed to the handlers as arguments. The directory takes a
  file of any name; where a result depends on the generated name having at most 255
  bytes (what common file systems allow, and enough to fit the \<^verbatim>\<open>photo\<close> column), the
  theorem says so.
\<close>

type_synonym bytes = "8 word list"

record row =
  id_col :: int
  name :: string
  description :: "string option"
  photo :: "string option"
  created_at :: int

record state =
  inventory :: "row list"
  inventory_id_seq :: int
  uploads :: "string \<rightharpoonup> bytes"

text \<open>The part \<^verbatim>\<open>photo\<close> of a multipart request, as multer receives it.\<close>

record upload =
  originalname :: string
  content :: bytes

text \<open>The fields the handlers read from \<^verbatim>\<open>req.body\<close>; \<open>None\<close> is \<^verbatim>\<open>undefined\<close>.\<close>

record body =
  inventory_name :: "string option"
  body_description :: "string option"

text \<open>
  Responses: a status with a text (\<^verbatim>\<open>send\<close>), a JSON row (\<^verbatim>\<open>json\<close>) or a file
  (\<^verbatim>\<open>sendFile\<close>). \<open>Json_item\<close> is the projection \<^verbatim>\<open>id, name, description, photo\<close> that
  the \<^verbatim>\<open>UPDATE ... RETURNING\<close> statements give; its argument is \<open>None\<close> when
  \<^verbatim>\<open>rows[0]\<close> is \<^verbatim>\<open>undefined\<close>.
\<close>

datatype item = Item int string "string option" "string option"

datatype payload =
    Text string
  | Json_row row
  | Json_item "item option"
  | File bytes

datatype response = Response nat payload

datatype db_error = Value_too_long | Sequence_limit | Unique_violation

section \<open>JavaScript and SQL primitives\<close>

text \<open>\<^verbatim>\<open>v || null\<close> on a string or \<^verbatim>\<open>undefined\<close>: the empty string is falsy.\<close>

definition or_null :: "string option \<Rightarrow> string option" where
  "or_null v = (case v of None \<Rightarrow> None | Some x \<Rightarrow> if x = [] then None else Some x)"

text \<open>\<^verbatim>\<open>COALESCE($1, col)\<close>.\<close>

definition coalesce :: "'a option \<Rightarrow> 'a \<Rightarrow> 'a" where
  "coalesce p c = (case p of None \<Rightarrow> c | Some v \<Rightarrow> v)"

text \<open>
  A \<open>string\<close> is the UTF-8 encoding of a text, as node-postgres sends it and as a file
  name is stored: \<open>length\<close> counts its bytes. Postgres counts characters: every byte
  of the encoding but the continuation bytes \<^verbatim>\<open>10xxxxxx\<close> starts one.
\<close>

definition continuation :: "char \<Rightarrow> bool" where
  "continuation c = (case c of Char b0 b1 b2 b3 b4 b5 b6 b7 \<Rightarrow> b7 \<and> \<not> b6)"

definition char_length :: "string \<Rightarrow> nat" where
  "char_length v = length (filter (\<lambda>c. \<not> continuation c) v)"

text \<open>
  Storing into a \<^verbatim>\<open>VARCHAR(255)\<close> column: a value of more than 255 characters is an
  error, unless all the excess characters are spaces, in which case Postgres cuts them
  off. A space is one byte, so the excess characters are the last bytes of the value.
\<close>

definition varchar255 :: "string \<Rightarrow> string option" where
  "varchar255 v =
     (let n = char_length v
      in if n \<le> 255 then Some v
         else if list_all (\<lambda>c. c = CHR '' '') (drop (length v - (n - 255)) v)
           then Some (take (length v - (n - 255)) v)
         else None)"

text \<open>The last value that the sequence behind a \<^verbatim>\<open>SERIAL\<close> column gives.\<close>

definition serial_max :: int where
  "serial_max = 2147483647"

text \<open>\<^verbatim>\<open>SELECT ... FROM inventory WHERE id=$1\<close>: the rows of the result.\<close>

definition select_by_id :: "row list \<Rightarrow> int \<Rightarrow> row list" where
  "select_by_id t i = filter (\<lambda>r. id_col r = i) t"

text \<open>
  \<^verbatim>\<open>INSERT INTO inventory (name, description, photo) VALUES ($1, $2, $3) RETURNING ...\<close>.
  The parameters are coerced to their columns first; then the key is drawn from the
  sequence, which fails once it has given its last value and which keeps a value it
  gave also when the insert fails on the primary key; \<^verbatim>\<open>created_at\<close> defaults to the
  database's \<^verbatim>\<open>now()\<close>. The result comes with the states the statement leaves
  behind: none, the advanced sequence, or the new table.
\<close>

definition sql_insert ::
  "state \<Rightarrow> int \<Rightarrow> string \<Rightarrow> string option \<Rightarrow> string option \<Rightarrow> (db_error + row) \<times> state list" where
  "sql_insert s db_now n d p =
     (case varchar255 n of
        None \<Rightarrow> (Inl Value_too_long, [])
      | Some n' \<Rightarrow>
         (case (case p of None \<Rightarrow> Some None | Some f \<Rightarrow> map_option Some (varchar255 f)) of
            None \<Rightarrow> (Inl Value_too_long, [])
          | Some p' \<Rightarrow>
             (if serial_max \<le> inventory_id_seq s then (Inl Sequence_limit, [])
              else
                (let i = inventory_id_seq s + 1;
                     s1 = s\<lparr>inventory_id_seq := i\<rparr>
                 in if list_ex (\<lambda>r. id_col r = i) (inventory s)
                    then (Inl Unique_violation, [s1])
                    else
                      (let r = \<lparr>id_col = i, name = n', description = d, photo = p',
                                 created_at = db_now\<rparr>
                       in (Inr r, [s1\<lparr>inventory := inventory s @ [r]\<rparr>]))))))"

text \<open>
  \<^verbatim>\<open>UPDATE inventory SET name = COALESCE($1, name), description = COALESCE($2, description)
  WHERE id=$3 RETURNING id, name, description, photo\<close>. The new name of a row is coerced
  to the column; one failure aborts the statement.
\<close>

definition set_text :: "string option \<Rightarrow> string option \<Rightarrow> row \<Rightarrow> row option" where
  "set_text p1 p2 r =
     (case varchar255 (coalesce p1 (name r)) of
        None \<Rightarrow> None
      | Some n' \<Rightarrow>
          Some (r\<lparr>name := n',
                   description := (case p2 of None \<Rightarrow> description r | Some v \<Rightarrow> Some v)\<rparr>))"

fun update_where :: "int \<Rightarrow> (row \<Rightarrow> row option) \<Rightarrow> row list \<Rightarrow> row list option" where
  "update_where i f [] = Some []"
| "update_where i f (r # rs) =
     (if id_col r = i then
        (case f r of
           None \<Rightarrow> None
         | Some r' \<Rightarrow> map_option ((#) r') (update_where i f rs))
      else map_option ((#) r) (update_where i f rs))"

definition sql_update_text ::
  "state \<Rightarrow> string option \<Rightarrow> string option \<Rightarrow> int \<Rightarrow> db_error + (row list \<times> state)" where
  "sql_update_text s p1 p2 i =
     (case update_where i (set_text p1 p2) (inventory s) of
        None \<Rightarrow> Inl Value_too_long
      | Some t \<Rightarrow> Inr (select_by_id t i, s\<lparr>inventory := t\<rparr>))"

text \<open>\<^verbatim>\<open>UPDATE inventory SET photo=$1 WHERE id=$2 RETURNING id, name, description, photo\<close>.\<close>

definition sql_update_photo ::
  "state \<Rightarrow> string \<Rightarrow> int \<Rightarrow> db_error + (row list \<times> state)" where
  "sql_update_photo s f i =
     (case varchar255 f of
        None \<Rightarrow> Inl Value_too_long
      | Some f' \<Rightarrow>
          (let t = map (\<lambda>r. if id_col r = i then r\<lparr>photo := Some f'\<rparr> else r) (inventory s)
           in Inr (select_by_id t i, s\<lparr>inventory := t\<rparr>)))"

text \<open>\<^verbatim>\<open>DELETE FROM inventory WHERE id=$1\<close>.\<close>

definition sql_delete :: "state \<Rightarrow> int \<Rightarrow> state" where
  "sql_delete s i = s\<lparr>inventory := filter (\<lambda>r. id_col r \<noteq> i) (inventory s)\<rparr>"

text \<open>\<^verbatim>\<open>fs.existsSync\<close> and \<^verbatim>\<open>fs.unlinkSync\<close> on a name inside \<^verbatim>\<open>uploads\<close>.\<close>

definition existsSync :: "state \<Rightarrow> string \<Rightarrow> bool" where
  "existsSync s f = (uploads s f \<noteq> None)"

definition unlinkSync :: "state \<Rightarrow> string \<Rightarrow> state" where
  "unlinkSync s f = s\<lparr>uploads := (uploads s)(f := None)\<rparr>"

section \<open>The upload middleware\<close>

text \<open>Decimal digits of \<^verbatim>\<open>Date.now()\<close>, as the template string prints them.\<close>

definition digit :: "nat \<Rightarrow> char" where
  "digit d =
     (if d = 0 then CHR ''0'' else if d = 1 then CHR ''1'' else if d = 2 then CHR ''2''
      else if d = 3 then CHR ''3'' else if d = 4 then CHR ''4'' else if d = 5 then CHR ''5''
      else if d = 6 then CHR ''6'' else if d = 7 then CHR ''7'' else if d = 8 then CHR ''8''
      else CHR ''9'')"

fun dec :: "nat \<Rightarrow> string" where
  "dec n = (if n < 10 then [digit n] else dec (n div 10) @ [digit (n mod 10)])"

declare dec.simps [simp del]

text \<open>multer's \<^verbatim>\<open>filename\<close> callback: \<^verbatim>\<open>`${Date.now()}_${file.originalname}`\<close>.\<close>

definition multer_filename :: "nat \<Rightarrow> string \<Rightarrow> string" where
  "multer_filename now orig = dec now @ ''_'' @ orig"

text \<open>
  A handler returns its response and its trace: the states after each of its side
  effects, in the order the effects happen. Every state of the trace can be seen by
  another request, since the handlers give up control at each \<^verbatim>\<open>await\<close>.
\<close>

definition final :: "state \<Rightarrow> state list \<Rightarrow> state" where
  "final s tr = last (s # tr)"

text \<open>
  \<^verbatim>\<open>upload.single("photo")\<close> runs before the handler: a file part is written to
  \<^verbatim>\<open>uploads\<close> under the generated name (replacing a file of that name) and its name is
  \<^verbatim>\<open>req.file.filename\<close>; without a file part \<^verbatim>\<open>req.file\<close> is \<^verbatim>\<open>undefined\<close>.
\<close>

definition upload_single :: "state \<Rightarrow> nat \<Rightarrow> upload option \<Rightarrow> string option \<times> state list" where
  "upload_single s now file =
     (case file of
        None \<Rightarrow> (None, [])
      | Some u \<Rightarrow>
          (let fn = multer_filename now (originalname u)
           in (Some fn, [s\<lparr>uploads := (uploads s)(fn \<mapsto> content u)\<rparr>])))"

section \<open>Route handlers\<close>

definition item_of :: "row \<Rightarrow> item" where
  "item_of r = Item (id_col r) (name r) (description r) (photo r)"

definition first_item :: "row list \<Rightarrow> item option" where
  "first_item rs = (case rs of [] \<Rightarrow> None | r # _ \<Rightarrow> Some (item_of r))"

text \<open>The text of the 400 response of \<^verbatim>\<open>POST /register\<close>; its last word is in UTF-8.\<close>

definition name_required :: string where
  "name_required = ''Bad Request: inventory_name '' @
     [CHR 0xD0, CHR 0xBE, CHR 0xD0, CHR 0xB1, CHR 0xD0, CHR 0xBE, CHR 0xD0, CHR 0xB2,
      CHR 0x27, CHR 0xD1, CHR 0x8F, CHR 0xD0, CHR 0xB7, CHR 0xD0, CHR 0xBA, CHR 0xD0,
      CHR 0xBE, CHR 0xD0, CHR 0xB2, CHR 0xD0, CHR 0xB5]"

text \<open>\<^verbatim>\<open>POST /register\<close>.\<close>

definition post_register ::
  "state \<Rightarrow> nat \<Rightarrow> int \<Rightarrow> body \<Rightarrow> upload option \<Rightarrow> response \<times> state list" where
  "post_register s now db_now b file =
     (let (f, tr) = upload_single s now file;
          s1 = final s tr
      in case or_null (inventory_name b) of
           None \<Rightarrow> (Response 400 (Text name_required), tr)
         | Some n \<Rightarrow>
            (case sql_insert s1 db_now n (or_null (body_description b)) f of
               (Inl e, tr2) \<Rightarrow> (Response 500 (Text ''DB error''), tr @ tr2)
             | (Inr r, tr2) \<Rightarrow> (Response 201 (Json_row r), tr @ tr2)))"

text \<open>\<^verbatim>\<open>PUT /inventory/:id\<close>.\<close>

definition put_item :: "state \<Rightarrow> int \<Rightarrow> body \<Rightarrow> response \<times> state list" where
  "put_item s i b =
     (if select_by_id (inventory s) i = [] then (Response 404 (Text ''Not Found''), [])
      else
        (case sql_update_text s (or_null (inventory_name b)) (or_null (body_description b)) i of
           Inl e \<Rightarrow> (Response 500 (Text ''DB error''), [])
         | Inr (rows, s1) \<Rightarrow> (Response 200 (Json_item (first_item rows)), [s1])))"

text \<open>\<^verbatim>\<open>GET /inventory/:id/photo\<close>; it changes nothing.\<close>

definition get_photo :: "state \<Rightarrow> int \<Rightarrow> response" where
  "get_photo s i =
     (case select_by_id (inventory s) i of
        [] \<Rightarrow> Response 404 (Text ''Not Found'')
      | r # _ \<Rightarrow>
         (case or_null (photo r) of
            None \<Rightarrow> Response 404 (Text ''Photo Not Found'')
          | Some p \<Rightarrow>
             (case uploads s p of
                None \<Rightarrow> Response 404 (Text ''Photo Not Found'')
              | Some bs \<Rightarrow> Response 200 (File bs))))"

text \<open>
  The two handlers that remove a file do it the same way: when the row's \<^verbatim>\<open>photo\<close> is
  truthy and the file exists, \<^verbatim>\<open>fs.unlinkSync\<close> removes it.
\<close>

definition unlink_photo :: "state \<Rightarrow> row \<Rightarrow> state list" where
  "unlink_photo s r =
     (case or_null (photo r) of
        None \<Rightarrow> []
      | Some old \<Rightarrow> if existsSync s old then [unlinkSync s old] else [])"

text \<open>\<^verbatim>\<open>PUT /inventory/:id/photo\<close>.\<close>

definition put_photo :: "state \<Rightarrow> nat \<Rightarrow> int \<Rightarrow> upload option \<Rightarrow> response \<times> state list" where
  "put_photo s now i file =
     (let (f, tr) = upload_single s now file;
          s1 = final s tr
      in case select_by_id (inventory s1) i of
           [] \<Rightarrow> (Response 404 (Text ''Not Found''), tr)
         | r # _ \<Rightarrow>
            (case f of
               None \<Rightarrow> (Response 400 (Text ''Bad Request: photo file required''), tr)
             | Some filename \<Rightarrow>
                (let tr2 = unlink_photo s1 r;
                     s2 = final s1 tr2
                 in case sql_update_photo s2 filename i of
                      Inl e \<Rightarrow> (Response 500 (Text ''DB error''), tr @ tr2)
                    | Inr (rows, s3) \<Rightarrow>
                        (Response 200 (Json_item (first_item rows)), tr @ tr2 @ [s3]))))"

text \<open>\<^verbatim>\<open>DELETE /inventory/:id\<close>.\<close>

definition delete_item :: "state \<Rightarrow> int \<Rightarrow> response \<times> state list" where
  "delete_item s i =
     (case select_by_id (inventory s) i of
        [] \<Rightarrow> (Response 404 (Text ''Not Found''), [])
      | r # _ \<Rightarrow>
         (let tr = unlink_photo s r;
              s1 = final s tr
          in (Response 200 (Text ''Deleted successfully''), tr @ [sql_delete s1 i])))"

section \<open>Requests in sequence\<close>




section \<open>Invariants of the two stores\<close>




text \<open>
  Invariant I1 of the specification: every non-null \<^verbatim>\<open>photo\<close> names a file that
  exists. \<open>unshared\<close>: no two rows name the same file. \<open>referenced\<close>: a row names the
  file.
\<close>

definition I1 :: "state \<Rightarrow> bool" where
  "I1 s = list_all (\<lambda>r. case photo r of None \<Rightarrow> True | Some f \<Rightarrow> existsSync s f) (inventory s)"

definition unshared :: "state \<Rightarrow> bool" where
  "unshared s = distinct (List.map_filter photo (inventory s))"

definition referenced :: "state \<Rightarrow> string \<Rightarrow> bool" where
  "referenced s f = list_ex (\<lambda>r. photo r = Some f) (inventory s)"

section \<open>Example data\<close>

text \<open>
  A small table for the concrete checks below: one record with a photo on disk, one
  without a photo; the same table over an empty \<^verbatim>\<open>uploads\<close> directory; and an upload.
\<close>

definition widget :: row where
  "widget = \<lparr>id_col = 1, name = ''Widget'', description = Some ''spare part'',
     photo = Some ''5_a.jpg'', created_at = 0\<rparr>"

definition gadget :: row where
  "gadget = \<lparr>id_col = 2, name = ''Gadget'', description = None, photo = None,
     created_at = 3\<rparr>"

definition jpeg :: bytes where
  "jpeg = [0xFF, 0xD8]"

definition demo :: state where
  "demo = \<lparr>inventory = [widget, gadget], inventory_id_seq = 2,
     uploads = [''5_a.jpg'' \<mapsto> jpeg]\<rparr>"

definition demo_lost :: state where
  "demo_lost = \<lparr>inventory = [widget, gadget], inventory_id_seq = 2, uploads = Map.empty\<rparr>"

definition png :: upload where
  "png = \<lparr>originalname = ''b.png'', content = [0x89, 0x50]\<rparr>"

definition rename :: body where
  "rename = \<lparr>inventory_name = Some ''Bolt'', body_description = None\<rparr>"

text \<open>The table after \<open>rename\<close> was applied to record 1, and after \<open>png\<close> was stored at time 7.\<close>

definition demo_renamed :: state where
  "demo_renamed = demo\<lparr>inventory := [widget\<lparr>name := ''Bolt''\<rparr>, gadget]\<rparr>"

definition demo_stored :: state where
  "demo_stored = demo\<lparr>uploads := (uploads demo)(''7_b.png'' \<mapsto> content png)\<rparr>"



text \<open>The record that \<open>rename\<close> with \<open>png\<close> creates at time 7 (database time 9).\<close>

definition bolt :: row where
  "bolt = \<lparr>id_col = 3, name = ''Bolt'', description = None, photo = Some ''7_b.png'',
     created_at = 9\<rparr>"

definition demo_created :: state where
  "demo_created = demo_stored\<lparr>inventory_id_seq := 3, inventory := [widget, gadget, bolt]\<rparr>"


text \<open>The example table after the file of record 1 was removed, and after its row was.\<close>

definition demo_gone :: state where
  "demo_gone = demo\<lparr>uploads := (uploads demo)(''5_a.jpg'' := None)\<rparr>"

definition demo_deleted :: state where
  "demo_deleted = demo_gone\<lparr>inventory := [gadget]\<rparr>"

text \<open>
  The example table while \<open>png\<close> replaces the photo of record 1: after the old file was
  removed, and after the row was updated.
\<close>

definition demo_unlinked :: state where
  "demo_unlinked = demo_stored\<lparr>uploads := (uploads demo_stored)(''5_a.jpg'' := None)\<rparr>"

definition demo_replaced :: state where
  "demo_replaced = demo_unlinked\<lparr>inventory := [widget\<lparr>photo := Some ''7_b.png''\<rparr>, gadget]\<rparr>"





definition demo_lost_gone :: state where
  "demo_lost_gone = demo_lost\<lparr>inventory := [gadget]\<rparr>"

definition demo_lost_stored :: state where
  "demo_lost_stored = demo_lost\<lparr>uploads := (uploads demo_lost)(''7_b.png'' \<mapsto> content png)\<rparr>"

definition demo_lost_replaced :: state where
  "demo_lost_replaced =
     demo_lost_stored\<lparr>inventory := [widget\<lparr>photo := Some ''7_b.png''\<rparr>, gadget]\<rparr>"

lemmas demo_defs = demo_def widget_def gadget_def png_def jpeg_def rename_def demo_stored_def

section \<open>Unfolding the handlers\<close>

lemma final_simps:
  "final s [] = s" "final s [t] = t" "final s (t # tr) = final t tr"
  "final s (tr @ [t]) = t"
  by (simp_all add: final_def)



lemma char_length_le: "char_length v \<le> length v"
  by (simp add: char_length_def)


lemma varchar255_fits: "length v \<le> 255 \<Longrightarrow> varchar255 v = Some v"
  using char_length_le [of v] by (simp add: varchar255_def)

lemma multer_filename_not_Nil: "multer_filename now orig \<noteq> []"
  by (simp add: multer_filename_def)

lemma put_photo_None:
  "put_photo s now i None =
     (if select_by_id (inventory s) i = [] then (Response 404 (Text ''Not Found''), [])
      else (Response 400 (Text ''Bad Request: photo file required''), []))"
  by (simp add: put_photo_def upload_single_def final_simps split: list.splits)

lemma put_photo_Some:
  "put_photo s now i (Some u) =
     (let fn = multer_filename now (originalname u);
          s1 = s\<lparr>uploads := (uploads s)(fn \<mapsto> content u)\<rparr>
      in case select_by_id (inventory s) i of
           [] \<Rightarrow> (Response 404 (Text ''Not Found''), [s1])
         | r # _ \<Rightarrow>
            (case sql_update_photo (final s1 (unlink_photo s1 r)) fn i of
               Inl e \<Rightarrow> (Response 500 (Text ''DB error''), s1 # unlink_photo s1 r)
             | Inr (rows, s3) \<Rightarrow>
                 (Response 200 (Json_item (first_item rows)), s1 # unlink_photo s1 r @ [s3])))"
  by (simp add: put_photo_def upload_single_def final_simps Let_def
      split: list.splits sum.splits prod.splits)

lemma post_register_400:
  "or_null (inventory_name b) = None \<Longrightarrow>
   post_register s now db_now b file =
     (Response 400 (Text name_required), snd (upload_single s now file))"
  by (simp add: post_register_def split: prod.splits)

lemma post_register_Some:
  "or_null (inventory_name b) = Some n \<Longrightarrow>
   post_register s now db_now b file =
     (case sql_insert (final s (snd (upload_single s now file))) db_now n
             (or_null (body_description b)) (fst (upload_single s now file)) of
        (Inl e, tr2) \<Rightarrow> (Response 500 (Text ''DB error''), snd (upload_single s now file) @ tr2)
      | (Inr r, tr2) \<Rightarrow> (Response 201 (Json_row r), snd (upload_single s now file) @ tr2))"
  by (simp add: post_register_def Let_def split: prod.splits sum.splits)

lemma sql_insert_Inr:
  "sql_insert s db_now n d p = (Inr r, tr) \<Longrightarrow>
   \<exists>n'. varchar255 n = Some n' \<and>
     (\<forall>f. p = Some f \<longrightarrow> varchar255 f \<noteq> None) \<and>
     inventory_id_seq s < serial_max \<and>
     \<not> list_ex (\<lambda>x. id_col x = inventory_id_seq s + 1) (inventory s) \<and>
     r = \<lparr>id_col = inventory_id_seq s + 1, name = n', description = d,
           photo = (case p of None \<Rightarrow> None | Some f \<Rightarrow> varchar255 f), created_at = db_now\<rparr> \<and>
     tr = [s\<lparr>inventory_id_seq := inventory_id_seq s + 1, inventory := inventory s @ [r]\<rparr>]"
  by (auto simp: sql_insert_def Let_def map_option_case split: option.splits if_splits)
    metis

lemma sql_insert_Inl:
  "sql_insert s db_now n d p = (Inl e, tr) \<Longrightarrow>
   tr = [] \<or> tr = [s\<lparr>inventory_id_seq := inventory_id_seq s + 1\<rparr>]"
  by (auto simp: sql_insert_def Let_def split: option.splits if_splits)



lemma final_upload_single_db:
  "inventory (final s (snd (upload_single s now file))) = inventory s \<and>
   inventory_id_seq (final s (snd (upload_single s now file))) = inventory_id_seq s"
  by (auto simp: upload_single_def Let_def final_simps split: option.splits)

lemma unlink_photo_db:
  "t \<in> set (unlink_photo s r) \<Longrightarrow>
   inventory t = inventory s \<and> inventory_id_seq t = inventory_id_seq s"
  by (auto simp: unlink_photo_def unlinkSync_def split: option.splits if_splits)

lemma final_unlink_photo_db:
  "inventory (final s (unlink_photo s r)) = inventory s \<and>
   inventory_id_seq (final s (unlink_photo s r)) = inventory_id_seq s"
  by (auto simp: unlink_photo_def unlinkSync_def final_simps split: option.splits)




lemma unlink_photo_Some:
  "photo r = Some old \<Longrightarrow> old \<noteq> [] \<Longrightarrow> existsSync s old \<Longrightarrow>
   unlink_photo s r = [s\<lparr>uploads := (uploads s)(old := None)\<rparr>]"
  by (simp add: unlink_photo_def or_null_def unlinkSync_def)

lemma unlink_photo_None: "photo r = None \<Longrightarrow> unlink_photo s r = []"
  by (simp add: unlink_photo_def or_null_def)

lemma unlink_photo_cases:
  "unlink_photo s r = [] \<or>
   (\<exists>old. photo r = Some old \<and> old \<noteq> [] \<and> existsSync s old \<and>
      unlink_photo s r = [s\<lparr>uploads := (uploads s)(old := None)\<rparr>])"
  by (auto simp: unlink_photo_def or_null_def unlinkSync_def split: option.splits)

section \<open>Rows and keys\<close>

lemma select_by_id_mem: "select_by_id t i = r # rs \<Longrightarrow> r \<in> set t \<and> id_col r = i"
proof -
  assume "select_by_id t i = r # rs"
  then have "r \<in> set (filter (\<lambda>x. id_col x = i) t)"
    by (simp add: select_by_id_def)
  then show ?thesis by simp
qed



lemma select_map:
  "\<forall>x. id_col (g x) = id_col x \<Longrightarrow>
   select_by_id (map (\<lambda>x. if id_col x = i then g x else x) t) i = map g (select_by_id t i)"
  by (induction t) (auto simp: select_by_id_def)

lemma sql_update_photo_fits:
  "length f \<le> 255 \<Longrightarrow>
   sql_update_photo s f i =
     Inr (map (\<lambda>x. x\<lparr>photo := Some f\<rparr>) (select_by_id (inventory s) i),
          s\<lparr>inventory := map (\<lambda>x. if id_col x = i then x\<lparr>photo := Some f\<rparr> else x) (inventory s)\<rparr>)"
  using select_map [of "\<lambda>x. x\<lparr>photo := Some f\<rparr>" i "inventory s"]
  by (simp add: sql_update_photo_def varchar255_fits Let_def)


lemma update_where_set_text_frame:
  "update_where i (set_text p1 p2) t = Some t' \<Longrightarrow>
   map id_col t' = map id_col t \<and> map photo t' = map photo t \<and>
   map created_at t' = map created_at t \<and>
   filter (\<lambda>r. id_col r \<noteq> i) t' = filter (\<lambda>r. id_col r \<noteq> i) t"
proof (induction t arbitrary: t')
  case Nil
  then show ?case by simp
next
  case (Cons r rs)
  then show ?case
    by (auto simp: set_text_def split: if_splits option.splits)
qed

lemma put_item_trace:
  "put_item s i b = (resp, tr) \<Longrightarrow> t \<in> set tr \<Longrightarrow>
   \<exists>t'. update_where i (set_text (or_null (inventory_name b)) (or_null (body_description b)))
           (inventory s) = Some t' \<and> t = s\<lparr>inventory := t'\<rparr>"
  by (auto simp: put_item_def sql_update_text_def split: if_splits option.splits)

lemma put_item_effect:
  assumes "put_item s i b = (resp, tr)" and "t \<in> set tr"
  shows "uploads t = uploads s \<and> inventory_id_seq t = inventory_id_seq s \<and>
    map id_col (inventory t) = map id_col (inventory s) \<and>
    map photo (inventory t) = map photo (inventory s) \<and>
    map created_at (inventory t) = map created_at (inventory s) \<and>
    filter (\<lambda>r. id_col r \<noteq> i) (inventory t) = filter (\<lambda>r. id_col r \<noteq> i) (inventory s)"
proof -
  from put_item_trace [OF assms] obtain t' where
    upd: "update_where i (set_text (or_null (inventory_name b)) (or_null (body_description b)))
            (inventory s) = Some t'"
    and t: "t = s\<lparr>inventory := t'\<rparr>"
    by blast
  from update_where_set_text_frame [OF upd] t show ?thesis
    by simp
qed

section \<open>The sequence only grows\<close>

















section \<open>Invariant I1 under the handlers\<close>

lemma I1_iff:
  "I1 s \<longleftrightarrow> (\<forall>r \<in> set (inventory s). \<forall>f. photo r = Some f \<longrightarrow> existsSync s f)"
  by (auto simp: I1_def list_all_iff split: option.splits)

lemma I1_photo_list:
  "I1 s = list_all (\<lambda>p. case p of None \<Rightarrow> True | Some f \<Rightarrow> uploads s f \<noteq> None)
            (map photo (inventory s))"
  by (simp add: I1_def list_all_iff existsSync_def cong: option.case_cong)

lemma I1_cong:
  "uploads t = uploads s \<Longrightarrow> map photo (inventory t) = map photo (inventory s) \<Longrightarrow> I1 t = I1 s"
  by (simp only: I1_photo_list)

lemma referenced_iff: "referenced s f \<longleftrightarrow> (\<exists>r \<in> set (inventory s). photo r = Some f)"
  by (simp add: referenced_def list_ex_iff)

lemma unshared_eq:
  assumes "unshared s" and "x \<in> set (inventory s)" and "y \<in> set (inventory s)"
    and "photo x = Some f" and "photo y = Some f"
  shows "x = y"
proof -
  let ?xs = "filter (\<lambda>r. photo r \<noteq> None) (inventory s)"
  from assms(1) have "distinct (map (the \<circ> photo) ?xs)"
    by (simp add: unshared_def List.map_filter_def)
  then have "inj_on (the \<circ> photo) (set ?xs)"
    by (simp add: distinct_map)
  moreover from assms have "x \<in> set ?xs" "y \<in> set ?xs" "(the \<circ> photo) x = (the \<circ> photo) y"
    by simp_all
  ultimately show ?thesis
    by (blast dest: inj_onD)
qed

lemma upload_single_trace:
  "t \<in> set (snd (upload_single s now file)) \<Longrightarrow> t = final s (snd (upload_single s now file))"
  by (auto simp: upload_single_def Let_def final_simps split: option.splits)

lemma upload_single_keeps:
  "existsSync s f \<Longrightarrow> existsSync (final s (snd (upload_single s now file))) f"
  by (auto simp: upload_single_def Let_def final_simps existsSync_def split: option.splits)

lemma upload_single_stored:
  "fst (upload_single s now file) = Some fn \<Longrightarrow>
   existsSync (final s (snd (upload_single s now file))) fn \<and>
   (\<exists>u. file = Some u \<and> fn = multer_filename now (originalname u))"
  by (auto simp: upload_single_def Let_def final_simps existsSync_def split: option.splits)

lemma I1_upload_single:
  assumes "I1 s"
  shows "I1 (final s (snd (upload_single s now file)))"
  using assms final_upload_single_db [of s now "file"] upload_single_keeps [of s _ now "file"]
  by (simp add: I1_iff)

lemma sql_insert_I1:
  assumes ins: "sql_insert s db_now n d p = (res, tr)" and t: "t \<in> set tr" and "I1 s"
    and p: "\<forall>f. p = Some f \<longrightarrow> length f \<le> 255 \<and> existsSync s f"
  shows "I1 t"
proof (cases res)
  case (Inl e)
  with ins t sql_insert_Inl [of s db_now n d p e tr]
  have "t = s\<lparr>inventory_id_seq := inventory_id_seq s + 1\<rparr>"
    by auto
  with assms(3) show ?thesis
    by (simp add: I1_iff existsSync_def)
next
  case (Inr r)
  with ins sql_insert_Inr [of s db_now n d p r tr] t
  have r: "photo r = (case p of None \<Rightarrow> None | Some f \<Rightarrow> varchar255 f)"
    and "t = s\<lparr>inventory_id_seq := inventory_id_seq s + 1, inventory := inventory s @ [r]\<rparr>"
    by auto
  moreover from r p have "\<forall>f. photo r = Some f \<longrightarrow> existsSync s f"
    by (auto simp: varchar255_fits split: option.splits)
  ultimately show ?thesis
    using assms(3) by (auto simp: I1_iff existsSync_def)
qed

lemma post_register_I1:
  assumes reg: "post_register s now db_now b file = (resp, tr)" and t: "t \<in> set tr" and "I1 s"
    and len: "\<forall>u. file = Some u \<longrightarrow> length (multer_filename now (originalname u)) \<le> 255"
  shows "I1 t"
proof -
  let ?tr = "snd (upload_single s now file)"
  let ?s1 = "final s ?tr"
  have s1: "I1 ?s1"
    by (rule I1_upload_single) fact
  show ?thesis
  proof (cases "or_null (inventory_name b)")
    case None
    with reg t have "t \<in> set ?tr"
      by (auto simp: post_register_400)
    from upload_single_trace [OF this] s1 show ?thesis
      by simp
  next
    case (Some n)
    obtain res tr2 where ins:
      "sql_insert ?s1 db_now n (or_null (body_description b)) (fst (upload_single s now file)) =
         (res, tr2)"
      by (cases "sql_insert ?s1 db_now n (or_null (body_description b))
          (fst (upload_single s now file))") blast
    with reg Some have "tr = ?tr @ tr2"
      by (auto simp: post_register_Some split: sum.splits)
    with t consider "t \<in> set ?tr" | "t \<in> set tr2"
      by auto
    then show ?thesis
    proof cases
      case 1
      from upload_single_trace [OF this] s1 show ?thesis
        by simp
    next
      case 2
      have "\<forall>f. fst (upload_single s now file) = Some f \<longrightarrow> length f \<le> 255 \<and> existsSync ?s1 f"
        using upload_single_stored [of s now "file"] len by blast
      from sql_insert_I1 [OF ins 2 s1 this] show ?thesis .
    qed
  qed
qed

lemma put_item_I1:
  assumes "put_item s i b = (resp, tr)" and "t \<in> set tr" and "I1 s"
  shows "I1 t"
proof -
  from put_item_effect [OF assms(1,2)] have
    "uploads t = uploads s" "map photo (inventory t) = map photo (inventory s)"
    by simp_all
  from I1_cong [OF this] assms(3) show ?thesis
    by simp
qed

text \<open>After the unlink step, every file that another row names is still there.\<close>

lemma final_unlink_photo_keeps:
  assumes "unshared s" and "r \<in> set (inventory s)" and "x \<in> set (inventory s)" and "x \<noteq> r"
    and "photo x = Some f" and "existsSync s1 f"
  shows "existsSync (final s1 (unlink_photo s1 r)) f"
proof -
  from unlink_photo_cases [of s1 r] show ?thesis
  proof
    assume "unlink_photo s1 r = []"
    with assms(6) show ?thesis
      by (simp add: final_simps)
  next
    assume "\<exists>old. photo r = Some old \<and> old \<noteq> [] \<and> existsSync s1 old \<and>
      unlink_photo s1 r = [s1\<lparr>uploads := (uploads s1)(old := None)\<rparr>]"
    then obtain old where old: "photo r = Some old"
      and un: "unlink_photo s1 r = [s1\<lparr>uploads := (uploads s1)(old := None)\<rparr>]"
      by blast
    from unshared_eq [OF assms(1,3,2,5)] assms(4) old have "f \<noteq> old"
      by auto
    with assms(6) show ?thesis
      by (simp add: un final_simps existsSync_def)
  qed
qed

lemma final_unlink_photo_fresh:
  assumes "photo r \<noteq> Some f" and "existsSync s1 f"
  shows "existsSync (final s1 (unlink_photo s1 r)) f"
  using unlink_photo_cases [of s1 r] assms
  by (auto simp: final_simps existsSync_def)

lemma delete_item_I1:
  assumes "I1 s" and "unshared s"
  shows "I1 (final s (snd (delete_item s i)))"
proof (cases "select_by_id (inventory s) i")
  case Nil
  with assms(1) show ?thesis
    by (simp add: delete_item_def final_simps)
next
  case (Cons r rs)
  let ?s1 = "final s (unlink_photo s r)"
  from select_by_id_mem [OF Cons] have r: "r \<in> set (inventory s)" and ri: "id_col r = i"
    by simp_all
  have fin: "final s (snd (delete_item s i)) = sql_delete ?s1 i"
    by (simp add: delete_item_def Cons final_simps Let_def)
  have "existsSync ?s1 f" if "x \<in> set (inventory s)" "id_col x \<noteq> i" "photo x = Some f" for x f
  proof -
    from that ri have "x \<noteq> r" by auto
    moreover from assms(1) that have "existsSync s f" by (auto simp: I1_iff)
    ultimately show ?thesis
      using final_unlink_photo_keeps [OF assms(2) r that(1) _ that(3)] by simp
  qed
  then show ?thesis
    using final_unlink_photo_db [of s r]
    by (auto simp: fin I1_iff sql_delete_def existsSync_def)
qed

lemma put_photo_I1:
  assumes "I1 s" and "unshared s"
    and fresh: "\<forall>u. file = Some u \<longrightarrow>
      length (multer_filename now (originalname u)) \<le> 255 \<and>
      \<not> referenced s (multer_filename now (originalname u))"
  shows "I1 (final s (snd (put_photo s now i file)))"
proof (cases "file")
  case None
  with assms(1) show ?thesis
    by (simp add: put_photo_None final_simps)
next
  case (Some u)
  let ?fn = "multer_filename now (originalname u)"
  let ?s1 = "s\<lparr>uploads := (uploads s)(?fn \<mapsto> content u)\<rparr>"
  from fresh Some have len: "length ?fn \<le> 255" and nref: "\<not> referenced s ?fn"
    by simp_all
  have s1: "existsSync ?s1 f" if "x \<in> set (inventory s)" "photo x = Some f" for x f
    using assms(1) that by (auto simp: I1_iff existsSync_def)
  show ?thesis
  proof (cases "select_by_id (inventory s) i")
    case Nil
    with Some s1 show ?thesis
      by (auto simp: put_photo_Some final_simps Let_def I1_iff)
  next
    case (Cons r rs)
    let ?s2 = "final ?s1 (unlink_photo ?s1 r)"
    from select_by_id_mem [OF Cons] have r: "r \<in> set (inventory s)" and ri: "id_col r = i"
      by simp_all
    have fin: "final s (snd (put_photo s now i (Some u))) =
        ?s2\<lparr>inventory := map (\<lambda>x. if id_col x = i then x\<lparr>photo := Some ?fn\<rparr> else x)
          (inventory ?s2)\<rparr>"
      by (simp add: put_photo_Some Cons sql_update_photo_fits [OF len] final_simps Let_def)
    have inv: "inventory ?s2 = inventory s"
      using final_unlink_photo_db [of ?s1 r] by simp
    from nref r have "photo r \<noteq> Some ?fn"
      by (auto simp: referenced_iff)
    then have new: "existsSync ?s2 ?fn"
      by (rule final_unlink_photo_fresh) (simp add: existsSync_def)
    have others: "existsSync ?s2 f"
      if "x \<in> set (inventory s)" "id_col x \<noteq> i" "photo x = Some f" for x f
    proof -
      from that ri have "x \<noteq> r" by auto
      with final_unlink_photo_keeps [OF assms(2) r that(1) _ that(3) s1 [OF that(1,3)]]
      show ?thesis by simp
    qed
    have "I1 (?s2\<lparr>inventory := map (\<lambda>x. if id_col x = i then x\<lparr>photo := Some ?fn\<rparr> else x)
          (inventory ?s2)\<rparr>)"
      unfolding I1_iff inv using new others
      by (auto simp: existsSync_def)
    with fin Some show ?thesis
      by simp
  qed
qed

lemma I1_broken_by_unlink:
  assumes "I1 s1" and "r \<in> set (inventory s1)" and "photo r = Some old" and "old \<noteq> []"
  shows "\<exists>t \<in> set (unlink_photo s1 r). \<not> I1 t"
proof -
  from assms have ex: "existsSync s1 old"
    by (auto simp: I1_iff)
  have "\<not> I1 (s1\<lparr>uploads := (uploads s1)(old := None)\<rparr>)"
    using assms(2,3) by (auto simp: I1_iff existsSync_def)
  with unlink_photo_Some [OF assms(3,4) ex] show ?thesis
    by simp
qed

section \<open>The handlers on the example data\<close>

lemma put_item_demo:
  "put_item demo 1 rename =
    (Response 200 (Json_item (Some (Item 1 ''Bolt'' (Some ''spare part'') (Some ''5_a.jpg'')))),
     [demo_renamed])"
  by (simp add: put_item_def
      demo_defs demo_renamed_def select_by_id_def sql_update_text_def set_text_def
      coalesce_def or_null_def varchar255_fits first_item_def item_of_def)

lemma put_photo_missing:
  "put_photo demo 7 3 (Some png) = (Response 404 (Text ''Not Found''), [demo_stored])"
  by (simp add: put_photo_Some demo_defs select_by_id_def multer_filename_def dec.simps
      digit_def Let_def)

lemma put_photo_no_file:
  "put_photo demo 7 1 None = (Response 400 (Text ''Bad Request: photo file required''), [])"
  by (simp add: put_photo_None demo_defs select_by_id_def)

lemma post_register_demo:
  "post_register demo 7 9 rename (Some png) =
     (Response 201 (Json_row bolt), [demo_stored, demo_created])"
  by (simp add: post_register_def upload_single_def final_simps sql_insert_def or_null_def
      serial_max_def varchar255_fits multer_filename_def dec.simps digit_def Let_def demo_defs bolt_def
      demo_created_def)

lemma delete_item_demo:
  "delete_item demo 1 = (Response 200 (Text ''Deleted successfully''), [demo_gone, demo_deleted])"
  by (simp add: delete_item_def select_by_id_def unlink_photo_def or_null_def existsSync_def
      unlinkSync_def sql_delete_def final_simps Let_def demo_defs demo_gone_def demo_deleted_def)



lemma put_photo_demo:
  "put_photo demo 7 1 (Some png) =
     (Response 200 (Json_item (Some (Item 1 ''Widget'' (Some ''spare part'') (Some ''7_b.png'')))),
      [demo_stored, demo_unlinked, demo_replaced])"
  by (simp add: put_photo_Some select_by_id_def unlink_photo_def or_null_def existsSync_def
      unlinkSync_def sql_update_photo_def varchar255_fits first_item_def item_of_def
      multer_filename_def dec.simps digit_def final_simps Let_def
      demo_defs demo_unlinked_def demo_replaced_def)




section \<open>The order of effects in replacing a photo\<close>

text \<open>
  C1, as the claim states it, fails: the previous file is removed before the row is
  updated. Replacing the photo of record 1 leaves three states behind: the upload
  stored; then the old file \<^verbatim>\<open>5_a.jpg\<close> removed while the row still names it; then the
  row updated to the new file.
\<close>

theorem put_photo_unlinks_before_swap_counterexample:
  "snd (put_photo demo 7 1 (Some png)) = [demo_stored, demo_unlinked, demo_replaced] \<and>
   map photo (select_by_id (inventory demo) 1) = [Some ''5_a.jpg''] \<and>
   existsSync demo ''5_a.jpg'' \<and>
   \<not> existsSync demo_unlinked ''5_a.jpg'' \<and>
   map photo (select_by_id (inventory demo_unlinked) 1) = [Some ''5_a.jpg''] \<and>
   map photo (select_by_id (inventory demo_replaced) 1) = [Some ''7_b.png'']"
  by (simp add: put_photo_demo)
    (simp add: select_by_id_def existsSync_def demo_defs demo_unlinked_def demo_replaced_def)

text \<open>
  C1, amended. For every existing record and every upload whose generated name has at
  most 255 bytes, \<^verbatim>\<open>PUT /inventory/:id/photo\<close> answers 200 with the updated record
  after these effects, in this order: the new file is stored (by the upload middleware,
  before the handler runs); then, if the record's \<^verbatim>\<open>photo\<close> is a non-empty name whose
  file exists, that file is removed, and otherwise nothing is; and last the row's
  \<^verbatim>\<open>photo\<close> is set to the new file name, in the table as it was.
\<close>

theorem put_photo_order:
  assumes sel: "select_by_id (inventory s) i = r # rs"
    and len: "length (multer_filename now (originalname u)) \<le> 255"
  shows
    "let fn = multer_filename now (originalname u);
         s1 = s\<lparr>uploads := (uploads s)(fn \<mapsto> content u)\<rparr>;
         tr2 = (case photo r of
                  None \<Rightarrow> []
                | Some old \<Rightarrow>
                    if old \<noteq> [] \<and> existsSync s1 old
                    then [s1\<lparr>uploads := (uploads s1)(old := None)\<rparr>] else []);
         s3 = (final s1 tr2)\<lparr>inventory :=
                map (\<lambda>x. if id_col x = i then x\<lparr>photo := Some fn\<rparr> else x) (inventory s)\<rparr>
     in put_photo s now i (Some u) =
          (Response 200 (Json_item (Some (item_of (r\<lparr>photo := Some fn\<rparr>)))), s1 # tr2 @ [s3])"
proof -
  let ?fn = "multer_filename now (originalname u)"
  let ?s1 = "s\<lparr>uploads := (uploads s)(?fn \<mapsto> content u)\<rparr>"
  have un: "unlink_photo ?s1 r =
      (case photo r of
         None \<Rightarrow> []
       | Some old \<Rightarrow>
           if old \<noteq> [] \<and> existsSync ?s1 old
           then [?s1\<lparr>uploads := (uploads ?s1)(old := None)\<rparr>] else [])"
    by (simp add: unlink_photo_def or_null_def unlinkSync_def split: option.splits)
  have inv: "inventory (final ?s1 (unlink_photo ?s1 r)) = inventory s"
    using final_unlink_photo_db [of ?s1 r] by simp
  have "put_photo s now i (Some u) =
      (Response 200 (Json_item (Some (item_of (r\<lparr>photo := Some ?fn\<rparr>)))),
       ?s1 # unlink_photo ?s1 r @
       [(final ?s1 (unlink_photo ?s1 r))\<lparr>inventory :=
          map (\<lambda>x. if id_col x = i then x\<lparr>photo := Some ?fn\<rparr> else x) (inventory s)\<rparr>])"
    by (simp add: put_photo_Some sel sql_update_photo_fits [OF len] inv first_item_def Let_def)
  then show ?thesis
    unfolding Let_def un .
qed

theorem put_photo_order_witness:
  "select_by_id (inventory demo) 1 = [widget] \<and>
   length (multer_filename 7 (originalname png)) \<le> 255 \<and>
   photo widget = Some ''5_a.jpg'' \<and> existsSync demo ''5_a.jpg'' \<and>
   put_photo demo 7 1 (Some png) =
     (Response 200 (Json_item (Some (item_of (widget\<lparr>photo := Some ''7_b.png''\<rparr>)))),
      [demo_stored, demo_unlinked, demo_replaced]) \<and>
   select_by_id (inventory demo_lost) 1 = [widget] \<and> \<not> existsSync demo_lost ''5_a.jpg'' \<and>
   put_photo demo_lost 7 1 (Some png) =
     (Response 200 (Json_item (Some (item_of (widget\<lparr>photo := Some ''7_b.png''\<rparr>)))),
      [demo_lost_stored, demo_lost_replaced])"
proof -
  have fn: "multer_filename 7 (originalname png) = ''7_b.png''"
    by (simp add: multer_filename_def dec.simps digit_def png_def)
  have fn': "multer_filename 7 ''b.png'' = ''7_b.png''"
    by (simp add: multer_filename_def dec.simps digit_def)
  have len: "length (multer_filename 7 (originalname png)) \<le> 255"
    by (simp add: fn)
  have sel: "select_by_id (inventory demo) 1 = [widget]"
    and sel': "select_by_id (inventory demo_lost) 1 = [widget]"
    by (simp_all add: select_by_id_def demo_defs demo_lost_def)
  have old: "photo widget = Some ''5_a.jpg''" "existsSync demo ''5_a.jpg''"
    "\<not> existsSync demo_lost ''5_a.jpg''"
    by (simp_all add: existsSync_def demo_defs demo_lost_def)
  from put_photo_order [OF sel len]
  have a: "put_photo demo 7 1 (Some png) =
     (Response 200 (Json_item (Some (item_of (widget\<lparr>photo := Some ''7_b.png''\<rparr>)))),
      [demo_stored, demo_unlinked, demo_replaced])"
    by (simp add: Let_def fn' final_simps existsSync_def demo_defs demo_unlinked_def
        demo_replaced_def)
  from put_photo_order [OF sel' len]
  have b: "put_photo demo_lost 7 1 (Some png) =
     (Response 200 (Json_item (Some (item_of (widget\<lparr>photo := Some ''7_b.png''\<rparr>)))),
      [demo_lost_stored, demo_lost_replaced])"
    by (simp add: Let_def fn' final_simps existsSync_def demo_defs demo_lost_def
        demo_lost_stored_def demo_lost_replaced_def)
  from sel len old a sel' b show ?thesis
    by blast
qed

section \<open>Invariant I1\<close>

text \<open>
  C2, as the claim states it, fails: replacing the photo of record 1, and deleting
  record 1, each pass through a state in which the row names a file that is missing,
  and a reader who fetches the photo in that state gets 404 "Photo Not Found".
\<close>

theorem I1_broken_midway_counterexample:
  "I1 demo \<and>
   snd (put_photo demo 7 1 (Some png)) ! 1 = demo_unlinked \<and> \<not> I1 demo_unlinked \<and>
   get_photo demo_unlinked 1 = Response 404 (Text ''Photo Not Found'') \<and>
   snd (delete_item demo 1) ! 0 = demo_gone \<and> \<not> I1 demo_gone \<and>
   get_photo demo_gone 1 = Response 404 (Text ''Photo Not Found'')"
  by (simp add: put_photo_demo delete_item_demo)
    (simp add: I1_def get_photo_def select_by_id_def or_null_def existsSync_def
      demo_defs demo_gone_def
      demo_unlinked_def)

text \<open>
  C2, amended. From a state that satisfies I1: every state that \<^verbatim>\<open>POST /register\<close>
  leaves behind satisfies I1 (when the generated file name has at most 255
  bytes), and so does every state that \<^verbatim>\<open>PUT /inventory/:id\<close> leaves behind. The
  state in which \<^verbatim>\<open>PUT /inventory/:id/photo\<close> ends satisfies I1 when no two rows name
  the same file and the generated name has at most 255 bytes and is not yet named
  by a row; the state in which \<^verbatim>\<open>DELETE /inventory/:id\<close> ends satisfies I1 when no two
  rows name the same file. But for a record with a photo, both of these requests pass
  through a state that violates I1.
\<close>

theorem I1_across_operations:
  assumes "I1 s"
  shows
   "((\<forall>u. att = Some u \<longrightarrow> length (multer_filename now (originalname u)) \<le> 255) \<longrightarrow>
       list_all I1 (snd (post_register s now db_now b att))) \<and>
    list_all I1 (snd (put_item s i b)) \<and>
    (unshared s \<and>
     (\<forall>u. att = Some u \<longrightarrow> length (multer_filename now (originalname u)) \<le> 255 \<and>
        \<not> referenced s (multer_filename now (originalname u))) \<longrightarrow>
       I1 (final s (snd (put_photo s now i att)))) \<and>
    (unshared s \<longrightarrow> I1 (final s (snd (delete_item s i)))) \<and>
    (\<forall>r rs old. select_by_id (inventory s) i = r # rs \<and> photo r = Some old \<and> old \<noteq> [] \<longrightarrow>
       (\<exists>t \<in> set (snd (delete_item s i)). \<not> I1 t) \<and>
       (\<forall>u. \<exists>t \<in> set (snd (put_photo s now i (Some u))). \<not> I1 t))"
proof (intro conjI allI impI)
  assume "\<forall>u. att = Some u \<longrightarrow> length (multer_filename now (originalname u)) \<le> 255"
  with post_register_I1 [of s now db_now b att "fst (post_register s now db_now b att)"
      "snd (post_register s now db_now b att)"] assms
  show "list_all I1 (snd (post_register s now db_now b att))"
    by (simp add: list_all_iff)
next
  from put_item_I1 [of s i b "fst (put_item s i b)" "snd (put_item s i b)"] assms
  show "list_all I1 (snd (put_item s i b))"
    by (simp add: list_all_iff)
next
  assume "unshared s \<and>
     (\<forall>u. att = Some u \<longrightarrow> length (multer_filename now (originalname u)) \<le> 255 \<and>
        \<not> referenced s (multer_filename now (originalname u)))"
  with put_photo_I1 [OF assms, of att now i]
  show "I1 (final s (snd (put_photo s now i att)))"
    by blast
next
  assume "unshared s"
  with delete_item_I1 [OF assms] show "I1 (final s (snd (delete_item s i)))"
    by blast
next
  fix r rs old
  assume a: "select_by_id (inventory s) i = r # rs \<and> photo r = Some old \<and> old \<noteq> []"
  then have sel: "select_by_id (inventory s) i = r # rs" and r: "r \<in> set (inventory s)"
    and old: "photo r = Some old" "old \<noteq> []"
    using select_by_id_mem by blast+
  from I1_broken_by_unlink [OF assms r old]
  show "\<exists>t \<in> set (snd (delete_item s i)). \<not> I1 t"
    by (auto simp: delete_item_def sel Let_def)
  fix u :: upload
  let ?s1 = "s\<lparr>uploads := (uploads s)(multer_filename now (originalname u) \<mapsto> content u)\<rparr>"
  have "I1 ?s1"
    using assms by (auto simp: I1_iff existsSync_def)
  moreover have "r \<in> set (inventory ?s1)"
    using r by simp
  ultimately have "\<exists>t \<in> set (unlink_photo ?s1 r). \<not> I1 t"
    using old by (rule I1_broken_by_unlink)
  then show "\<exists>t \<in> set (snd (put_photo s now i (Some u))). \<not> I1 t"
    by (auto simp: put_photo_Some sel Let_def split: sum.splits)
qed

theorem I1_across_operations_witness:
  "I1 demo \<and> unshared demo \<and>
   length (multer_filename 7 (originalname png)) \<le> 255 \<and>
   \<not> referenced demo (multer_filename 7 (originalname png)) \<and>
   select_by_id (inventory demo) 1 = [widget] \<and> photo widget = Some ''5_a.jpg'' \<and>
   list_all I1 (snd (post_register demo 7 9 rename (Some png))) \<and>
   list_all I1 (snd (put_item demo 1 rename)) \<and>
   I1 (final demo (snd (put_photo demo 7 1 (Some png)))) \<and>
   I1 (final demo (snd (delete_item demo 1))) \<and>
   (\<exists>t \<in> set (snd (delete_item demo 1)). \<not> I1 t) \<and>
   (\<exists>t \<in> set (snd (put_photo demo 7 1 (Some png))). \<not> I1 t)"
proof -
  have i1: "I1 demo" and un: "unshared demo"
    by (simp_all add: I1_def unshared_def List.map_filter_def existsSync_def demo_defs)
  have fn: "multer_filename 7 (originalname png) = ''7_b.png''"
    by (simp add: multer_filename_def dec.simps digit_def png_def)
  have len: "\<forall>u. Some png = Some u \<longrightarrow> length (multer_filename 7 (originalname u)) \<le> 255"
    by (simp add: fn)
  have fresh: "\<forall>u. Some png = Some u \<longrightarrow> length (multer_filename 7 (originalname u)) \<le> 255 \<and>
        \<not> referenced demo (multer_filename 7 (originalname u))"
    by (simp add: fn) (simp add: referenced_def demo_defs)
  have sel: "select_by_id (inventory demo) 1 = [widget] \<and> photo widget = Some ''5_a.jpg'' \<and>
      ''5_a.jpg'' \<noteq> []"
    by (simp add: select_by_id_def demo_defs)
  note T = I1_across_operations [OF i1, where att = "Some png" and now = 7 and db_now = 9
      and b = rename and i = 1]
  from T len have a: "list_all I1 (snd (post_register demo 7 9 rename (Some png)))"
    by blast
  from T have b: "list_all I1 (snd (put_item demo 1 rename))"
    by blast
  from T un fresh have c: "I1 (final demo (snd (put_photo demo 7 1 (Some png))))"
    by blast
  from T un have d: "I1 (final demo (snd (delete_item demo 1)))"
    by blast
  from T sel have e: "\<exists>t \<in> set (snd (delete_item demo 1)). \<not> I1 t"
    and f: "\<exists>t \<in> set (snd (put_photo demo 7 1 (Some png))). \<not> I1 t"
    by blast+
  from fresh have g: "length (multer_filename 7 (originalname png)) \<le> 255"
    and h: "\<not> referenced demo (multer_filename 7 (originalname png))"
    by simp_all
  from i1 un g h sel a b c d e f show ?thesis
    by blast
qed

section \<open>The order of effects in deleting a record\<close>

text \<open>
  C3, as the claim states it, fails: the file is removed while the row still exists and
  names it. Deleting record 1 leaves two states behind: first the file \<^verbatim>\<open>5_a.jpg\<close> is
  gone and the row is still in the table, then the row is gone too.
\<close>

theorem delete_item_unlinks_before_row_counterexample:
  "snd (delete_item demo 1) = [demo_gone, demo_deleted] \<and>
   existsSync demo ''5_a.jpg'' \<and>
   \<not> existsSync demo_gone ''5_a.jpg'' \<and>
   select_by_id (inventory demo_gone) 1 = [widget] \<and> photo widget = Some ''5_a.jpg'' \<and>
   select_by_id (inventory demo_deleted) 1 = []"
  by (simp add: delete_item_demo)
    (simp add: select_by_id_def existsSync_def demo_defs demo_gone_def demo_deleted_def)

text \<open>
  C3, amended. For every existing record, \<^verbatim>\<open>DELETE /inventory/:id\<close> answers 200 after
  these effects, in this order: if the record's \<^verbatim>\<open>photo\<close> is a non-empty name whose file
  exists, the file is removed first, and otherwise nothing is; then the rows of the id
  are deleted. In the state that the removal of the file leaves, the row is still in
  the table.
\<close>

theorem delete_item_order:
  assumes sel: "select_by_id (inventory s) i = r # rs"
  shows
    "let tr = (case photo r of
                 None \<Rightarrow> []
               | Some old \<Rightarrow>
                   if old \<noteq> [] \<and> existsSync s old
                   then [s\<lparr>uploads := (uploads s)(old := None)\<rparr>] else []);
         s2 = (final s tr)\<lparr>inventory := filter (\<lambda>x. id_col x \<noteq> i) (inventory s)\<rparr>
     in delete_item s i = (Response 200 (Text ''Deleted successfully''), tr @ [s2]) \<and>
        list_all (\<lambda>t. select_by_id (inventory t) i = r # rs) tr"
proof -
  have un: "unlink_photo s r =
      (case photo r of
         None \<Rightarrow> []
       | Some old \<Rightarrow>
           if old \<noteq> [] \<and> existsSync s old
           then [s\<lparr>uploads := (uploads s)(old := None)\<rparr>] else [])"
    by (simp add: unlink_photo_def or_null_def unlinkSync_def split: option.splits)
  have inv: "inventory (final s (unlink_photo s r)) = inventory s"
    using final_unlink_photo_db [of s r] by simp
  have del: "delete_item s i =
      (Response 200 (Text ''Deleted successfully''),
       unlink_photo s r @
       [(final s (unlink_photo s r))\<lparr>inventory := filter (\<lambda>x. id_col x \<noteq> i) (inventory s)\<rparr>])"
    by (simp add: delete_item_def sel sql_delete_def inv Let_def)
  have "list_all (\<lambda>t. select_by_id (inventory t) i = r # rs) (unlink_photo s r)"
    using unlink_photo_db [of _ s r] sel by (simp add: list_all_iff)
  with del show ?thesis
    unfolding Let_def un by simp
qed

theorem delete_item_order_witness:
  "select_by_id (inventory demo) 1 = [widget] \<and>
   photo widget = Some ''5_a.jpg'' \<and> existsSync demo ''5_a.jpg'' \<and>
   delete_item demo 1 = (Response 200 (Text ''Deleted successfully''), [demo_gone, demo_deleted]) \<and>
   select_by_id (inventory demo_gone) 1 = [widget] \<and> \<not> existsSync demo_gone ''5_a.jpg'' \<and>
   select_by_id (inventory demo_lost) 1 = [widget] \<and> \<not> existsSync demo_lost ''5_a.jpg'' \<and>
   delete_item demo_lost 1 = (Response 200 (Text ''Deleted successfully''), [demo_lost_gone])"
proof -
  have sel: "select_by_id (inventory demo) 1 = [widget]"
    and sel': "select_by_id (inventory demo_lost) 1 = [widget]"
    and sel'': "select_by_id (inventory demo_gone) 1 = [widget]"
    by (simp_all add: select_by_id_def demo_defs demo_lost_def demo_gone_def)
  have old: "photo widget = Some ''5_a.jpg''" "existsSync demo ''5_a.jpg''"
    "\<not> existsSync demo_lost ''5_a.jpg''" "\<not> existsSync demo_gone ''5_a.jpg''"
    by (simp_all add: existsSync_def demo_defs demo_lost_def demo_gone_def)
  from delete_item_order [OF sel]
  have a: "delete_item demo 1 =
      (Response 200 (Text ''Deleted successfully''), [demo_gone, demo_deleted])"
    by (simp add: Let_def final_simps existsSync_def demo_defs demo_gone_def demo_deleted_def)
  from delete_item_order [OF sel']
  have b: "delete_item demo_lost 1 =
      (Response 200 (Text ''Deleted successfully''), [demo_lost_gone])"
    by (simp add: Let_def final_simps existsSync_def demo_defs demo_lost_def demo_lost_gone_def)
  from sel old a sel' sel'' b show ?thesis
    by blast
qed

section \<open>Fetching the photo\<close>

text \<open>
  C4. Fetching the photo of an existing record whose \<^verbatim>\<open>photo\<close> is null answers
  404 "Photo Not Found"; so does fetching a photo whose file is missing from
  \<^verbatim>\<open>uploads\<close>. An id with no record answers 404 "Not Found", and the two answers differ
  (in their text).
\<close>

theorem get_photo_not_found_kinds:
  "(select_by_id (inventory s) i = [] \<longrightarrow> get_photo s i = Response 404 (Text ''Not Found'')) \<and>
   (\<forall>r rs. select_by_id (inventory s) i = r # rs \<and> photo r = None \<longrightarrow>
      get_photo s i = Response 404 (Text ''Photo Not Found'')) \<and>
   (\<forall>r rs f. select_by_id (inventory s) i = r # rs \<and> photo r = Some f \<and> \<not> existsSync s f \<longrightarrow>
      get_photo s i = Response 404 (Text ''Photo Not Found'')) \<and>
   Response 404 (Text ''Photo Not Found'') \<noteq> Response 404 (Text ''Not Found'')"
  by (auto simp: get_photo_def or_null_def existsSync_def split: list.splits option.splits)

theorem get_photo_not_found_kinds_witness:
  "select_by_id (inventory demo) 3 = [] \<and>
   get_photo demo 3 = Response 404 (Text ''Not Found'') \<and>
   select_by_id (inventory demo) 2 = [gadget] \<and> photo gadget = None \<and>
   get_photo demo 2 = Response 404 (Text ''Photo Not Found'') \<and>
   select_by_id (inventory demo_lost) 1 = [widget] \<and> photo widget = Some ''5_a.jpg'' \<and>
   \<not> existsSync demo_lost ''5_a.jpg'' \<and>
   get_photo demo_lost 1 = Response 404 (Text ''Photo Not Found'')"
  using get_photo_not_found_kinds [of demo 3] get_photo_not_found_kinds [of demo 2]
    get_photo_not_found_kinds [of demo_lost 1]
  by (simp add: demo_defs demo_lost_def select_by_id_def existsSync_def)

section \<open>Partial update of the text fields\<close>




section \<open>Create, then fetch the photo\<close>

text \<open>
  C6. When \<^verbatim>\<open>POST /register\<close> with an attached photo answers 201 with a record, and
  the generated file name has at most 255 bytes (so that the \<^verbatim>\<open>photo\<close> column
  stores it as it is), then \<^verbatim>\<open>GET /inventory/:id/photo\<close> on the returned id, in the state
  the request leaves, answers 200 with exactly the bytes that were submitted.
\<close>

theorem register_then_get_photo:
  assumes reg: "post_register s now db_now b (Some u) = (Response 201 (Json_row r), tr)"
    and len: "length (multer_filename now (originalname u)) \<le> 255"
  shows "get_photo (final s tr) (id_col r) = Response 200 (File (content u))"
proof -
  let ?fn = "multer_filename now (originalname u)"
  let ?s1 = "s\<lparr>uploads := (uploads s)(?fn \<mapsto> content u)\<rparr>"
  have up: "upload_single s now (Some u) = (Some ?fn, [?s1])"
    by (simp add: upload_single_def Let_def)
  from reg obtain n where n: "or_null (inventory_name b) = Some n"
    by (cases "or_null (inventory_name b)") (auto simp: post_register_400)
  from reg obtain tr2 where
    ins: "sql_insert ?s1 db_now n (or_null (body_description b)) (Some ?fn) = (Inr r, tr2)"
    and tr: "tr = ?s1 # tr2"
    by (auto simp: post_register_Some [OF n] up final_simps split: prod.splits sum.splits)
  from sql_insert_Inr [OF ins] len obtain n' where
    fresh: "\<not> list_ex (\<lambda>x. id_col x = inventory_id_seq s + 1) (inventory s)"
    and r: "r = \<lparr>id_col = inventory_id_seq s + 1, name = n',
        description = or_null (body_description b), photo = Some ?fn, created_at = db_now\<rparr>"
    and tr2: "tr2 = [?s1\<lparr>inventory_id_seq := inventory_id_seq s + 1,
        inventory := inventory s @ [r]\<rparr>]"
    by (auto simp: varchar255_fits)
  from fresh have "select_by_id (inventory s) (inventory_id_seq s + 1) = []"
    by (auto simp: select_by_id_def filter_empty_conv list_ex_iff)
  then have sel: "select_by_id (inventory s @ [r]) (id_col r) = [r]"
    by (simp add: select_by_id_def r)
  have fin: "final s tr = ?s1\<lparr>inventory_id_seq := inventory_id_seq s + 1,
        inventory := inventory s @ [r]\<rparr>"
    by (simp add: tr tr2 final_simps)
  have ph: "or_null (photo r) = Some ?fn"
    by (simp add: r or_null_def multer_filename_not_Nil)
  show ?thesis
    by (simp add: fin get_photo_def sel ph)
qed

theorem register_then_get_photo_witness:
  "post_register demo 7 9 rename (Some png) =
     (Response 201 (Json_row bolt), [demo_stored, demo_created]) \<and>
   length (multer_filename 7 (originalname png)) \<le> 255 \<and>
   get_photo (final demo [demo_stored, demo_created]) (id_col bolt) =
     Response 200 (File (content png))"
proof -
  have len: "length (multer_filename 7 (originalname png)) \<le> 255"
    by (simp add: multer_filename_def dec.simps digit_def demo_defs)
  from register_then_get_photo [OF post_register_demo len] post_register_demo len
  show ?thesis by blast
qed

section \<open>Creating a record\<close>




section \<open>Deleting twice\<close>

text \<open>
  C8. After a delete that answered 200, a second delete of the same id answers
  404 "Not Found" and has an empty trace: it touches neither the table nor the files.
\<close>

theorem delete_twice:
  "delete_item s i = (Response 200 p, tr) \<Longrightarrow>
   delete_item (final s tr) i = (Response 404 (Text ''Not Found''), [])"
  by (auto simp: delete_item_def final_def sql_delete_def select_by_id_def Let_def
      split: list.splits)

theorem delete_twice_witness:
  "fst (delete_item demo 1) = Response 200 (Text ''Deleted successfully'') \<and>
   delete_item (final demo (snd (delete_item demo 1))) 1 = (Response 404 (Text ''Not Found''), [])"
  using delete_twice [of demo 1 "Text ''Deleted successfully''" "snd (delete_item demo 1)"]
  by (simp add: delete_item_def demo_defs select_by_id_def Let_def)

section \<open>Updating the text fields\<close>

text \<open>
  C9. Every state that \<^verbatim>\<open>PUT /inventory/:id\<close> leaves behind has the files and the
  sequence of the state before; its table has the same rows in the same places with
  the same \<^verbatim>\<open>id\<close>, \<^verbatim>\<open>photo\<close> and \<^verbatim>\<open>created_at\<close>, so only names and descriptions can
  differ; and the rows of every other id are the rows of before.
\<close>

theorem put_item_frame:
  assumes "put_item s i b = (resp, tr)" and "t \<in> set tr"
  shows "uploads t = uploads s \<and> inventory_id_seq t = inventory_id_seq s \<and>
    map id_col (inventory t) = map id_col (inventory s) \<and>
    map photo (inventory t) = map photo (inventory s) \<and>
    map created_at (inventory t) = map created_at (inventory s) \<and>
    filter (\<lambda>r. id_col r \<noteq> i) (inventory t) = filter (\<lambda>r. id_col r \<noteq> i) (inventory s)"
proof -
  from put_item_trace [OF assms] obtain t' where
    upd: "update_where i (set_text (or_null (inventory_name b)) (or_null (body_description b)))
            (inventory s) = Some t'"
    and t: "t = s\<lparr>inventory := t'\<rparr>"
    by blast
  from update_where_set_text_frame [OF upd] have
    "map id_col t' = map id_col (inventory s)" "map photo t' = map photo (inventory s)"
    "map created_at t' = map created_at (inventory s)"
    "filter (\<lambda>r. id_col r \<noteq> i) t' = filter (\<lambda>r. id_col r \<noteq> i) (inventory s)"
    by simp_all
  with t show ?thesis
    by simp
qed

theorem put_item_frame_witness:
  "put_item demo 1 rename =
    (Response 200 (Json_item (Some (Item 1 ''Bolt'' (Some ''spare part'') (Some ''5_a.jpg'')))),
     [demo_renamed]) \<and>
   uploads demo_renamed = uploads demo \<and>
   inventory_id_seq demo_renamed = inventory_id_seq demo \<and>
   map id_col (inventory demo_renamed) = map id_col (inventory demo) \<and>
   map photo (inventory demo_renamed) = map photo (inventory demo) \<and>
   map created_at (inventory demo_renamed) = map created_at (inventory demo) \<and>
   filter (\<lambda>r. id_col r \<noteq> 1) (inventory demo_renamed) =
     filter (\<lambda>r. id_col r \<noteq> 1) (inventory demo)"
proof -
  have "demo_renamed \<in> set [demo_renamed]"
    by simp
  from put_item_frame [OF put_item_demo this] put_item_demo show ?thesis
    by blast
qed

section \<open>A rejected photo replacement\<close>

text \<open>
  C10. When \<^verbatim>\<open>PUT /inventory/:id/photo\<close> answers 404 or 400, every state it leaves
  behind has the table and the sequence of the state before, and every file that
  existed before still exists: no file was removed. With 400 there is no effect at
  all; with 404 the only possible effect is the upload that multer stored.
\<close>

theorem put_photo_rejected_keeps_state:
  assumes "put_photo s now i file = (Response c p, tr)" and "c = 404 \<or> c = 400"
  shows "(\<forall>t \<in> set tr. inventory t = inventory s \<and> inventory_id_seq t = inventory_id_seq s \<and>
            (\<forall>f. existsSync s f \<longrightarrow> existsSync t f)) \<and>
         (c = 400 \<longrightarrow> tr = [])"
proof (cases "file")
  case None
  with assms show ?thesis
    by (auto simp: put_photo_None split: if_splits)
next
  case (Some u)
  with assms show ?thesis
    by (auto simp: put_photo_Some Let_def existsSync_def split: list.splits sum.splits)
qed

theorem put_photo_rejected_keeps_state_witness:
  "put_photo demo 7 3 (Some png) = (Response 404 (Text ''Not Found''), [demo_stored]) \<and>
   inventory demo_stored = inventory demo \<and>
   inventory_id_seq demo_stored = inventory_id_seq demo \<and>
   existsSync demo ''5_a.jpg'' \<and> existsSync demo_stored ''5_a.jpg'' \<and>
   put_photo demo 7 1 None = (Response 400 (Text ''Bad Request: photo file required''), [])"
proof -
  have old: "existsSync demo ''5_a.jpg''"
    by (simp add: existsSync_def demo_defs)
  have "(404::nat) = 404 \<or> (404::nat) = 400"
    by simp
  from put_photo_rejected_keeps_state [OF put_photo_missing this]
  have "inventory demo_stored = inventory demo \<and>
      inventory_id_seq demo_stored = inventory_id_seq demo \<and>
      (existsSync demo ''5_a.jpg'' \<longrightarrow> existsSync demo_stored ''5_a.jpg'')"
    by fastforce
  with old put_photo_missing put_photo_no_file show ?thesis
    by blast
qed

end
